theory Spec2Isabelle
  imports Complex_Main
begin

section \<open>JSON values and their serialisation\<close>

text \<open>
  The values that travel through the wrapper are the ones \<^verbatim>\<open>JSON.parse\<close> produces and
  \<^verbatim>\<open>JSON.stringify\<close> prints without loss: null, booleans, integral numbers, strings,
  arrays and objects.  An object is the list of its own properties in the order
  \<^verbatim>\<open>Object.entries\<close> enumerates them (keys that are array indices first, in ascending
  order, then the other keys as they were added); a string is a list of code units below
  256, so that \<^verbatim>\<open>s.length\<close> is \<open>length s\<close> and \<^verbatim>\<open>s.substring(0, n)\<close> is \<open>take n s\<close>.
  Numbers are the integers that a double holds exactly and prints in decimal notation;
  numbers with a fractional part and \<^verbatim>\<open>undefined\<close> are outside the model.
\<close>

datatype json =
    JNull
  | JBool bool
  | JNum int
  | JStr string
  | JArr "json list"
  | JObj "(string \<times> json) list"

definition dquote :: char where
  "dquote = CHR 0x22"

definition backslash :: char where
  "backslash = CHR 0x5C"

definition hex_digit :: "nat \<Rightarrow> char" where
  "hex_digit n = ''0123456789abcdef'' ! n"

definition decimal_digit :: "nat \<Rightarrow> char" where
  "decimal_digit n = ''0123456789'' ! n"

text \<open>
  Decimal digits of a natural number, as \<^verbatim>\<open>String(n)\<close> prints them for a number below
  \<open>10\<^sup>2\<^sup>1\<close>; from there on JavaScript prints an exponent, and the number is outside the
  model.
\<close>

fun digits :: "nat \<Rightarrow> string" where
  "digits n =
     (if n < 10 then [decimal_digit n] else digits (n div 10) @ [decimal_digit (n mod 10)])"

declare digits.simps [simp del]

definition number_to_string :: "int \<Rightarrow> string" where
  "number_to_string i = (if i < 0 then CHR ''-'' # digits (nat (- i)) else digits (nat i))"

text \<open>
  The escapes of \<^verbatim>\<open>JSON.stringify\<close>: the quote, the backslash, the five short control
  escapes, and \<^verbatim>\<open>\u00XX\<close> for every other code unit below 0x20.
\<close>

definition escape_char :: "char \<Rightarrow> string" where
  "escape_char c =
     (if c = dquote then [backslash, dquote]
      else if c = backslash then [backslash, backslash]
      else if c = CHR 0x08 then [backslash, CHR ''b'']
      else if c = CHR 0x09 then [backslash, CHR ''t'']
      else if c = CHR 0x0A then [backslash, CHR ''n'']
      else if c = CHR 0x0C then [backslash, CHR ''f'']
      else if c = CHR 0x0D then [backslash, CHR ''r'']
      else if (of_char c :: nat) < 32
        then [backslash, CHR ''u'', CHR ''0'', CHR ''0'',
              hex_digit (of_char c div 16), hex_digit (of_char c mod 16)]
      else [c])"

definition quote :: "string \<Rightarrow> string" where
  "quote s = dquote # concat (map escape_char s) @ [dquote]"

fun join :: "string \<Rightarrow> string list \<Rightarrow> string" where
  "join sep [] = []"
| "join sep [x] = x"
| "join sep (x # y # ys) = x @ sep @ join sep (y # ys)"

fun stringify :: "json \<Rightarrow> string" where
  "stringify JNull = ''null''"
| "stringify (JBool b) = (if b then ''true'' else ''false'')"
| "stringify (JNum i) = number_to_string i"
| "stringify (JStr s) = quote s"
| "stringify (JArr xs) = ''['' @ join '','' (map stringify xs) @ '']''"
| "stringify (JObj kvs) =
     ''{'' @ join '','' (map (\<lambda>(k, v). quote k @ '':'' @ stringify v) kvs) @ ''}''"

text \<open>\<^verbatim>\<open>Buffer.byteLength(s, 'utf8')\<close>: a code unit from 0x80 on takes two bytes.\<close>

definition utf8_bytes :: "char \<Rightarrow> nat" where
  "utf8_bytes c = (if (of_char c :: nat) < 128 then 1 else 2)"

definition byteLength :: "string \<Rightarrow> nat" where
  "byteLength s = sum_list (map utf8_bytes s)"

definition calculateResponseSize :: "json \<Rightarrow> nat" where
  "calculateResponseSize data = byteLength (stringify data)"


section \<open>The response bounder\<close>

text \<open>
  A size limit is modelled by a rational: \<^verbatim>\<open>targetSize * 0.9\<close> is nine tenths of the
  target and \<^verbatim>\<open>targetSize / 4\<close> a quarter of it, compared exactly with the integral
  running size.  For a limit that is a whole number of bytes the comparison in doubles has
  the same outcome: the rounding error of \<^verbatim>\<open>0.9\<close> is far smaller than the distance
  between the exact product and the nearest integer it does not equal.
\<close>

text \<open>
  Defining the own property \<open>key\<close> of an object given by its property list, as an object
  literal does for each of its entries: an existing property keeps its position and takes
  the new value, a new one goes to the end.
\<close>

fun set_property :: "(string \<times> json) list \<Rightarrow> string \<Rightarrow> json \<Rightarrow> (string \<times> json) list" where
  "set_property [] key v = [(key, v)]"
| "set_property ((k, w) # ps) key v =
     (if k = key then (k, v) # ps else (k, w) # set_property ps key v)"

text \<open>
  The assignment \<^verbatim>\<open>obj[key] = value\<close> on an object that started as \<^verbatim>\<open>{}\<close>.  The key
  \<^verbatim>\<open>__proto__\<close> names the accessor inherited from \<^verbatim>\<open>Object.prototype\<close>: its setter
  changes the prototype (for an object or null) or does nothing, and no own property is
  stored.  The prototype has no part in \<^verbatim>\<open>Object.entries\<close>, in the spread or in
  \<^verbatim>\<open>JSON.stringify\<close> of plain data.  Every other key defines the own property.
\<close>

definition assign_property ::
  "(string \<times> json) list \<Rightarrow> string \<Rightarrow> json \<Rightarrow> (string \<times> json) list" where
  "assign_property obj key v = (if key = ''__proto__'' then obj else set_property obj key v)"

definition truncation_marker :: "nat \<Rightarrow> json" where
  "truncation_marker n =
     JObj [(''_truncated'', JStr (''... '' @ digits n @ '' more items truncated''))]"

text \<open>
  The array loop of \<^verbatim>\<open>truncateObject\<close>.  The list argument is the part of \<^verbatim>\<open>obj\<close> from
  index \<^verbatim>\<open>i\<close> on, so \<^verbatim>\<open>obj.length - i\<close> is its length.
\<close>

fun truncateArray :: "rat \<Rightarrow> json list \<Rightarrow> nat \<Rightarrow> json list \<Rightarrow> json list" where
  "truncateArray targetSize [] currentSize truncatedArray = truncatedArray"
| "truncateArray targetSize (item # rest) currentSize truncatedArray =
     (let itemSize = calculateResponseSize item in
      if of_nat (currentSize + itemSize) > targetSize * (9 / 10)
      then truncatedArray @ [truncation_marker (length (item # rest))]
      else truncateArray targetSize rest (currentSize + itemSize) (truncatedArray @ [item]))"

text \<open>
  What the object loop stores for a field.  The recursive call of \<^verbatim>\<open>truncateObject\<close> is
  made on an array only, so it runs the array loop and nothing else.
\<close>

definition truncateField :: "rat \<Rightarrow> json \<Rightarrow> json" where
  "truncateField targetSize v =
     (case v of
        JArr items \<Rightarrow>
          if length items > 10 then JArr (truncateArray (targetSize / 4) items 2 []) else v
      | JStr s \<Rightarrow>
          if length s > 1000 then JStr (take 1000 s @ ''... (truncated)'') else v
      | _ \<Rightarrow> v)"

definition remaining_marker :: json where
  "remaining_marker = JStr ''... additional fields truncated''"

fun truncateFields ::
  "rat \<Rightarrow> (string \<times> json) list \<Rightarrow> nat \<Rightarrow> (string \<times> json) list \<Rightarrow> (string \<times> json) list" where
  "truncateFields targetSize [] currentSize truncatedObj = truncatedObj"
| "truncateFields targetSize ((key, v) # rest) currentSize truncatedObj =
     (let pairSize = calculateResponseSize (JObj [(key, v)]) in
      if of_nat (currentSize + pairSize) > targetSize * (9 / 10)
      then assign_property truncatedObj ''_remaining'' remaining_marker
      else truncateFields targetSize rest (currentSize + pairSize)
             (assign_property truncatedObj key (truncateField targetSize v)))"

definition truncateObject :: "json \<Rightarrow> rat \<Rightarrow> json" where
  "truncateObject obj targetSize =
     (case obj of
        JArr items \<Rightarrow> JArr (truncateArray targetSize items 2 [])
      | JObj props \<Rightarrow> JObj (truncateFields targetSize props 2 [])
      | _ \<Rightarrow> obj)"

record ResponseMetadata =
  size_md :: nat
  truncated :: bool
  originalSize :: "nat option"

record BoundedResponse =
  data :: json
  metadata :: ResponseMetadata

text \<open>The own enumerable properties an object spread \<^verbatim>\<open>{...v}\<close> copies.\<close>

definition spread :: "json \<Rightarrow> (string \<times> json) list" where
  "spread v =
     (case v of
        JObj props \<Rightarrow> props
      | JArr items \<Rightarrow> zip (map digits [0..<length items]) items
      | JStr s \<Rightarrow> zip (map digits [0..<length s]) (map (\<lambda>c. JStr [c]) s)
      | _ \<Rightarrow> [])"

definition truncation_message :: string where
  "truncation_message =
     ''Response was truncated due to size limits. Use more specific queries or increase MAX_RESPONSE_SIZE.''"

text \<open>
  \<^verbatim>\<open>truncateResponse\<close>, with \<open>d\<close> for \<^verbatim>\<open>data\<close>, \<open>original\<close> for \<^verbatim>\<open>originalSize\<close> and
  \<open>t\<close> for \<^verbatim>\<open>truncated\<close>.  The warning written to stderr has no part in the returned
  value and is left out.
\<close>

definition truncateResponse :: "json \<Rightarrow> rat \<Rightarrow> BoundedResponse" where
  "truncateResponse d maxSize =
     (let original = calculateResponseSize d in
      if of_nat original \<le> maxSize
      then \<lparr>data = d,
            metadata = \<lparr>size_md = original, truncated = False, originalSize = None\<rparr>\<rparr>
      else
        let t = truncateObject d maxSize;
            truncatedSize = calculateResponseSize t
        in \<lparr>data = JObj (set_property (spread t) ''_metadata''
                     (JObj [(''truncated'', JBool True),
                            (''originalSize'', JNum (int original)),
                            (''truncatedSize'', JNum (int truncatedSize)),
                            (''message'', JStr truncation_message)])),
             metadata = \<lparr>size_md = truncatedSize, truncated = True,
                         originalSize = Some original\<rparr>\<rparr>)"


section \<open>The upstream client\<close>

record DocumentConfig =
  name :: string
  apiEndpoint :: string

record Config =
  documents :: "DocumentConfig list"

text \<open>A block is opaque upstream data.\<close>

type_synonym Block = json

record BlockFetchParams =
  id_param :: "string option"
  maxDepth :: "int option"
  fetchMetadata :: "bool option"

record SearchParams =
  pattern :: string
  caseSensitive :: "bool option"
  beforeBlockCount :: "int option"
  afterBlockCount :: "int option"

record BlocksResponse =
  success :: bool
  data :: "json option"
  error :: "string option"

record SearchResult =
  block :: Block
  documentName :: "string option"
  path :: "string list option"

record SearchResponse =
  success :: bool
  results :: "SearchResult list option"
  error :: "string option"

text \<open>
  One \<^verbatim>\<open>axios.get\<close> call: the request it sends, and what comes back.  A 2xx answer
  resolves with the parsed body; a timeout, a transport failure or any other status rejects
  with an error that has a message and, when the server answered, the body of the answer.
\<close>

datatype query_params = BlocksQuery BlockFetchParams | SearchQuery SearchParams

record AxiosRequest =
  url :: string
  params :: query_params
  timeout :: nat

record AxiosError =
  response_data :: "json option"
  message :: string

type_synonym http = "AxiosRequest \<Rightarrow> AxiosError + json"

text \<open>What JavaScript takes for true in a condition.\<close>

fun truthy :: "json \<Rightarrow> bool" where
  "truthy JNull = False"
| "truthy (JBool b) = b"
| "truthy (JNum i) = (i \<noteq> 0)"
| "truthy (JStr s) = (s \<noteq> [])"
| "truthy (JArr xs) = True"
| "truthy (JObj kvs) = True"

text \<open>The \<^verbatim>\<open>error\<close> text both \<^verbatim>\<open>catch\<close> blocks build.\<close>

definition caught_error :: "AxiosError \<Rightarrow> string" where
  "caught_error axiosError =
     (case response_data axiosError of
        Some d \<Rightarrow>
          if truthy d then stringify d
          else if message axiosError \<noteq> [] then message axiosError
          else ''Unknown error occurred''
      | None \<Rightarrow>
          if message axiosError \<noteq> [] then message axiosError
          else ''Unknown error occurred'')"

definition fetchBlocks_request :: "string \<Rightarrow> BlockFetchParams option \<Rightarrow> AxiosRequest" where
  "fetchBlocks_request endpoint ps =
     \<lparr>url = endpoint @ ''/blocks'',
      params = BlocksQuery
        \<lparr>id_param = (case ps of None \<Rightarrow> None | Some p \<Rightarrow> id_param p),
         maxDepth = (case ps of None \<Rightarrow> None | Some p \<Rightarrow> maxDepth p),
         fetchMetadata = (case ps of None \<Rightarrow> None | Some p \<Rightarrow> fetchMetadata p)\<rparr>,
      timeout = 30000\<rparr>"

definition fetchBlocks :: "http \<Rightarrow> string \<Rightarrow> BlockFetchParams option \<Rightarrow> BlocksResponse" where
  "fetchBlocks get endpoint ps =
     (case get (fetchBlocks_request endpoint ps) of
        Inr d \<Rightarrow> \<lparr>BlocksResponse.success = True, data = Some d, error = None\<rparr>
      | Inl axiosError \<Rightarrow>
          \<lparr>BlocksResponse.success = False, data = None, error = Some (caught_error axiosError)\<rparr>)"

definition searchBlocks_request :: "string \<Rightarrow> SearchParams \<Rightarrow> AxiosRequest" where
  "searchBlocks_request endpoint searchParams =
     \<lparr>url = endpoint @ ''/blocks/search'',
      params = SearchQuery
        \<lparr>pattern = pattern searchParams,
         caseSensitive = SearchParams.caseSensitive searchParams,
         beforeBlockCount = beforeBlockCount searchParams,
         afterBlockCount = afterBlockCount searchParams\<rparr>,
      timeout = 30000\<rparr>"

definition searchBlocks :: "http \<Rightarrow> string \<Rightarrow> SearchParams \<Rightarrow> SearchResponse" where
  "searchBlocks get endpoint searchParams =
     (case get (searchBlocks_request endpoint searchParams) of
        Inr d \<Rightarrow>
          \<lparr>success = True,
           results = Some (case d of
                             JArr blocks \<Rightarrow>
                               map (\<lambda>b. \<lparr>block = b, documentName = None, path = None\<rparr>) blocks
                           | _ \<Rightarrow> []),
           error = None\<rparr>
      | Inl axiosError \<Rightarrow>
          \<lparr>success = False, results = None, error = Some (caught_error axiosError)\<rparr>)"


section \<open>The aggregator and the single-document tools\<close>

record AggregatedSearchResult =
  documentName :: string
  results :: "SearchResult list option"
  error :: "string option"

record SearchAllResult =
  query :: string
  caseSensitive :: bool
  totalResults :: nat
  documentsSearched :: nat
  results :: "AggregatedSearchResult list"
  errors :: "AggregatedSearchResult list option"

text \<open>
  How a promise settles: fulfilled with a value, or rejected with a reason, of which the
  code reads \<^verbatim>\<open>reason?.message\<close> only.
\<close>

datatype 'a settled = Fulfilled 'a | Rejected "string option"

text \<open>
  The \<^verbatim>\<open>searchBlocks\<close> call made for the document at a given position, as
  \<^verbatim>\<open>searchAllNotes\<close> sees it: it returns a response, or it throws.
\<close>

type_synonym search_call = "nat \<Rightarrow> string \<Rightarrow> SearchParams \<Rightarrow> SearchResponse settled"

text \<open>The body of the mapped \<^verbatim>\<open>async\<close> function, after the \<^verbatim>\<open>await\<close>.\<close>

definition searchTask :: "DocumentConfig \<Rightarrow> SearchResponse \<Rightarrow> AggregatedSearchResult" where
  "searchTask doc result =
     (case (SearchResponse.success result, SearchResponse.results result) of
        (True, Some rs) \<Rightarrow>
          \<lparr>AggregatedSearchResult.documentName = name doc,
           results = Some (map (\<lambda>r. r\<lparr>SearchResult.documentName := Some (name doc)\<rparr>) rs),
           error = None\<rparr>
      | _ \<Rightarrow>
          \<lparr>AggregatedSearchResult.documentName = name doc,
           results = None,
           error = Some (case SearchResponse.error result of
                           Some e \<Rightarrow> if e \<noteq> [] then e else ''Unknown error''
                         | None \<Rightarrow> ''Unknown error'')\<rparr>)"

definition searchPromises ::
  "search_call \<Rightarrow> Config \<Rightarrow> string \<Rightarrow> bool option \<Rightarrow> AggregatedSearchResult settled list" where
  "searchPromises search config q cs =
     map (\<lambda>(index, doc).
            case search index (apiEndpoint doc)
                   \<lparr>pattern = q,
                    caseSensitive = Some (case cs of Some b \<Rightarrow> b | None \<Rightarrow> False),
                    beforeBlockCount = None, afterBlockCount = None\<rparr> of
              Fulfilled result \<Rightarrow> Fulfilled (searchTask doc result)
            | Rejected reason \<Rightarrow> Rejected reason)
         (enumerate 0 (documents config))"

definition aggregate :: "Config \<Rightarrow> AggregatedSearchResult settled list \<Rightarrow> AggregatedSearchResult list" where
  "aggregate config settled_results =
     map (\<lambda>(index, result).
            case result of
              Fulfilled v \<Rightarrow> v
            | Rejected reason \<Rightarrow>
                \<lparr>AggregatedSearchResult.documentName = name (documents config ! index),
                 results = None,
                 error = Some (case reason of
                                 Some m \<Rightarrow> if m \<noteq> [] then m else ''Promise rejected''
                               | None \<Rightarrow> ''Promise rejected'')\<rparr>)
         (enumerate 0 settled_results)"

definition searchAllNotes :: "search_call \<Rightarrow> Config \<Rightarrow> string \<Rightarrow> bool option \<Rightarrow> SearchAllResult" where
  "searchAllNotes search config q cs =
     (let aggregated = aggregate config (searchPromises search config q cs);
          total = foldl (\<lambda>sum doc. sum + (case AggregatedSearchResult.results doc of
                                             Some rs \<Rightarrow> length rs | None \<Rightarrow> 0))
                        0 aggregated;
          errs = filter (\<lambda>doc. case AggregatedSearchResult.error doc of
                                  Some e \<Rightarrow> e \<noteq> [] | None \<Rightarrow> False)
                        aggregated
      in \<lparr>query = q,
          caseSensitive = (case cs of Some b \<Rightarrow> b | None \<Rightarrow> False),
          totalResults = total,
          documentsSearched = length (documents config),
          results = aggregated,
          errors = (if length errs > 0 then Some errs else None)\<rparr>)"

text \<open>The search calls as the client makes them: each one returns, none throws.\<close>

definition client_search :: "(nat \<Rightarrow> http) \<Rightarrow> search_call" where
  "client_search get index endpoint searchParams =
     Fulfilled (searchBlocks (get index) endpoint searchParams)"

text \<open>
  The three single-document tools.  Each returns one of three object shapes; the first is
  \<^verbatim>\<open>{error, availableDocuments}\<close>.  The configuration is passed through, so that what
  the caller holds after the call is part of the result.
\<close>

definition find_document :: "Config \<Rightarrow> string \<Rightarrow> DocumentConfig option" where
  "find_document config wanted = find (\<lambda>d. name d = wanted) (documents config)"

definition not_found_message :: "string \<Rightarrow> string" where
  "not_found_message wanted = ''Document '' @ [dquote] @ wanted @ [dquote] @ '' not found''"

datatype SearchDocumentResult =
    SearchNotFound string "string list"
  | SearchFound string string bool nat "SearchResult list"
  | SearchFailed string string

definition searchDocument ::
  "http \<Rightarrow> Config \<Rightarrow> string \<Rightarrow> string \<Rightarrow> bool option \<Rightarrow> SearchDocumentResult \<times> Config" where
  "searchDocument get config wanted q cs =
     (case find_document config wanted of
        None \<Rightarrow>
          (SearchNotFound (not_found_message wanted) (map name (documents config)), config)
      | Some doc \<Rightarrow>
          let result = searchBlocks get (apiEndpoint doc)
                         \<lparr>pattern = q,
                          caseSensitive = Some (case cs of Some b \<Rightarrow> b | None \<Rightarrow> False),
                          beforeBlockCount = None, afterBlockCount = None\<rparr>
          in (case (SearchResponse.success result, SearchResponse.results result) of
                (True, Some rs) \<Rightarrow>
                  (SearchFound (name doc) q (case cs of Some b \<Rightarrow> b | None \<Rightarrow> False)
                     (length rs)
                     (map (\<lambda>r. r\<lparr>SearchResult.documentName := Some (name doc)\<rparr>) rs),
                   config)
              | _ \<Rightarrow>
                  (SearchFailed (name doc)
                     (case SearchResponse.error result of
                        Some e \<Rightarrow> if e \<noteq> [] then e else ''Unknown error''
                      | None \<Rightarrow> ''Unknown error''),
                   config)))"

datatype ReadDocumentResult =
    ReadNotFound string "string list"
  | ReadFound string "int option" json
  | ReadFailed string string

definition readDocument ::
  "http \<Rightarrow> Config \<Rightarrow> string \<Rightarrow> int option \<Rightarrow> ReadDocumentResult \<times> Config" where
  "readDocument get config wanted depth =
     (case find_document config wanted of
        None \<Rightarrow>
          (ReadNotFound (not_found_message wanted) (map name (documents config)), config)
      | Some doc \<Rightarrow>
          let result = fetchBlocks get (apiEndpoint doc)
                         (Some \<lparr>id_param = None, maxDepth = depth, fetchMetadata = Some True\<rparr>)
          in (case (BlocksResponse.success result, BlocksResponse.data result) of
                (True, Some d) \<Rightarrow>
                  if truthy d then (ReadFound (name doc) depth d, config)
                  else (ReadFailed (name doc)
                          (case BlocksResponse.error result of
                             Some e \<Rightarrow> if e \<noteq> [] then e else ''Unknown error''
                           | None \<Rightarrow> ''Unknown error''),
                        config)
              | _ \<Rightarrow>
                  (ReadFailed (name doc)
                     (case BlocksResponse.error result of
                        Some e \<Rightarrow> if e \<noteq> [] then e else ''Unknown error''
                      | None \<Rightarrow> ''Unknown error''),
                   config)))"

datatype ReadBlockResult =
    BlockNotFound string "string list"
  | BlockFound string string json
  | BlockFailed string string string

definition readBlock ::
  "http \<Rightarrow> Config \<Rightarrow> string \<Rightarrow> string \<Rightarrow> ReadBlockResult \<times> Config" where
  "readBlock get config wanted blockId =
     (case find_document config wanted of
        None \<Rightarrow>
          (BlockNotFound (not_found_message wanted) (map name (documents config)), config)
      | Some doc \<Rightarrow>
          let result = fetchBlocks get (apiEndpoint doc)
                         (Some \<lparr>id_param = Some blockId, maxDepth = None,
                                fetchMetadata = Some True\<rparr>)
          in (case (BlocksResponse.success result, BlocksResponse.data result) of
                (True, Some d) \<Rightarrow>
                  if truthy d then (BlockFound (name doc) blockId d, config)
                  else (BlockFailed (name doc) blockId
                          (case BlocksResponse.error result of
                             Some e \<Rightarrow> if e \<noteq> [] then e else ''Unknown error''
                           | None \<Rightarrow> ''Unknown error''),
                        config)
              | _ \<Rightarrow>
                  (BlockFailed (name doc) blockId
                     (case BlocksResponse.error result of
                        Some e \<Rightarrow> if e \<noteq> [] then e else ''Unknown error''
                      | None \<Rightarrow> ''Unknown error''),
                   config)))"


section \<open>Vocabulary of the properties\<close>

text \<open>
  The call \<^verbatim>\<open>searchAllNotes\<close> makes for the document at position \<open>i\<close>, whether it counts
  as successful (the test \<^verbatim>\<open>result.success && result.results\<close>), how many results it
  brought, and how many results an aggregated entry carries.
\<close>

definition search_response ::
  "search_call \<Rightarrow> Config \<Rightarrow> string \<Rightarrow> bool option \<Rightarrow> nat \<Rightarrow> SearchResponse settled" where
  "search_response search config q cs i =
     search i (apiEndpoint (documents config ! i))
       \<lparr>pattern = q,
        caseSensitive = Some (case cs of Some b \<Rightarrow> b | None \<Rightarrow> False),
        beforeBlockCount = None, afterBlockCount = None\<rparr>"

fun call_succeeded :: "SearchResponse settled \<Rightarrow> bool" where
  "call_succeeded (Fulfilled r) = (SearchResponse.success r \<and> SearchResponse.results r \<noteq> None)"
| "call_succeeded (Rejected reason) = False"

fun hits :: "SearchResponse settled \<Rightarrow> nat" where
  "hits (Fulfilled r) =
     (case (SearchResponse.success r, SearchResponse.results r) of
        (True, Some rs) \<Rightarrow> length rs
      | _ \<Rightarrow> 0)"
| "hits (Rejected reason) = 0"

definition entry_results :: "AggregatedSearchResult \<Rightarrow> nat" where
  "entry_results e = (case AggregatedSearchResult.results e of Some rs \<Rightarrow> length rs | None \<Rightarrow> 0)"

text \<open>
  Two documents and two runs of the search calls, as in the scenarios of the specification:
  in the first run document A answers with two matches and the call for B times out; in the
  second run the call for A is rejected and the one for B times out.
\<close>

definition two_documents :: Config where
  "two_documents =
     \<lparr>documents = [\<lparr>name = ''A'', apiEndpoint = ''http://a''\<rparr>,
                   \<lparr>name = ''B'', apiEndpoint = ''http://b''\<rparr>]\<rparr>"

definition timed_out :: SearchResponse where
  "timed_out =
     \<lparr>SearchResponse.success = False, results = None,
      error = Some ''timeout of 30000ms exceeded''\<rparr>"

definition two_matches :: SearchResponse where
  "two_matches =
     \<lparr>SearchResponse.success = True,
      results = Some [\<lparr>block = JObj [(''id'', JStr ''1'')], documentName = None, path = None\<rparr>,
                      \<lparr>block = JObj [(''id'', JStr ''2'')], documentName = None, path = None\<rparr>],
      error = None\<rparr>"

definition one_fails :: search_call where
  "one_fails i endpoint searchParams = (if i = 0 then Fulfilled two_matches else Fulfilled timed_out)"

definition both_fail :: search_call where
  "both_fail i endpoint searchParams = (if i = 0 then Rejected None else Fulfilled timed_out)"

text \<open>
  An upstream that gives the same outcome to every request; \<^verbatim>\<open>Array.isArray\<close>; and four
  outcomes: a timeout, a 404 with a JSON object as body, a 500 whose body is the JSON
  value \<^verbatim>\<open>false\<close>, and a failure with neither body nor message.
\<close>

definition answering :: "AxiosError + json \<Rightarrow> http" where
  "answering outcome request = outcome"

fun isArray :: "json \<Rightarrow> bool" where
  "isArray (JArr xs) = True"
| "isArray v = False"

definition timeout_error :: AxiosError where
  "timeout_error = \<lparr>response_data = None, message = ''timeout of 30000ms exceeded''\<rparr>"

definition not_found_error :: AxiosError where
  "not_found_error =
     \<lparr>response_data = Some (JObj [(''error'', JStr ''Not found'')]),
      message = ''Request failed with status code 404''\<rparr>"

definition false_body_error :: AxiosError where
  "false_body_error =
     \<lparr>response_data = Some (JBool False), message = ''Request failed with status code 500''\<rparr>"

definition silent_error :: AxiosError where
  "silent_error = \<lparr>response_data = None, message = []\<rparr>"

definition search_for_x :: SearchParams where
  "search_for_x =
     \<lparr>pattern = ''x'', caseSensitive = None, beforeBlockCount = None, afterBlockCount = None\<rparr>"

text \<open>
  The bookkeeping of the truncation pass: the test against nine tenths of the target, the
  running size of an accumulated array (\<^verbatim>\<open>currentSize\<close>: two bytes for the brackets and
  the serialised size of every element, separators not counted), the size the object loop
  charges for a field, the running size of accumulated fields, and the fields as the object
  loop stores them (a field called \<^verbatim>\<open>__proto__\<close> is charged and not stored).
\<close>

definition within_budget :: "rat \<Rightarrow> nat \<Rightarrow> bool" where
  "within_budget targetSize n = (of_nat n \<le> targetSize * (9 / 10))"

definition running_size :: "json list \<Rightarrow> nat" where
  "running_size items = 2 + sum_list (map calculateResponseSize items)"

definition pair_size :: "string \<times> json \<Rightarrow> nat" where
  "pair_size p = calculateResponseSize (JObj [p])"

definition running_fields_size :: "(string \<times> json) list \<Rightarrow> nat" where
  "running_fields_size props = 2 + sum_list (map pair_size props)"

definition kept_fields :: "rat \<Rightarrow> (string \<times> json) list \<Rightarrow> (string \<times> json) list" where
  "kept_fields targetSize props =
     map (\<lambda>(key, v). (key, truncateField targetSize v))
       (filter (\<lambda>(key, v). key \<noteq> ''__proto__'') props)"

text \<open>
  Inputs on which the bounder is run below: a short array; an object with an array of 30
  ones and a string; an object whose first field is itself called \<^verbatim>\<open>_remaining\<close>; an
  object whose first field is called \<^verbatim>\<open>__proto__\<close>; an object with an array of 11 ones
  and a string; an object with one string field of 300 characters; and an array of 999998
  ones and a ten, whose serialisation has 2000000 bytes.
\<close>

definition short_array :: "json list" where
  "short_array = [JNum 1, JNum 2, JNum 3]"

definition two_fields :: "(string \<times> json) list" where
  "two_fields =
     [(''l'', JArr (replicate 30 (JNum 1))), (''z'', JStr ''xxxxxxxxxxxxxxxxxxxx'')]"

definition remaining_first :: "(string \<times> json) list" where
  "remaining_first = [(''_remaining'', JNum 1), (''b'', JStr ''xxxxxxxxxxxx'')]"

definition proto_first :: "(string \<times> json) list" where
  "proto_first = [(''__proto__'', JNum 5), (''a'', JNum 1)]"

definition array_and_text :: "(string \<times> json) list" where
  "array_and_text =
     [(''b'', JArr (replicate 11 (JNum 1))), (''c'', JStr ''xxxxxxxxxxxxxxxx'')]"

definition long_field :: json where
  "long_field = JObj [(''a'', JStr (replicate 300 CHR ''x''))]"

definition big_array :: json where
  "big_array = JArr (replicate 999998 (JNum 1) @ [JNum 10])"

text \<open>
  The upstream of the first scenario as the client sees it: the request for the first
  document resolves with two blocks, every other request times out.  And a configuration
  with one document called Notes.
\<close>

definition scenario_http :: "nat \<Rightarrow> http" where
  "scenario_http index =
     (if index = 0
      then answering (Inr (JArr [JObj [(''id'', JStr ''1'')], JObj [(''id'', JStr ''2'')]]))
      else answering (Inl timeout_error))"

definition notes_config :: Config where
  "notes_config = \<lparr>documents = [\<lparr>name = ''Notes'', apiEndpoint = ''http://notes''\<rparr>]\<rparr>"

section \<open>Properties of the aggregator\<close>

lemma length_searchPromises:
  "length (searchPromises search config q cs) = length (documents config)"
  by (simp add: searchPromises_def)

lemma nth_searchPromises:
  assumes "i < length (documents config)"
  shows "searchPromises search config q cs ! i =
           (case search_response search config q cs i of
              Fulfilled result \<Rightarrow> Fulfilled (searchTask (documents config ! i) result)
            | Rejected reason \<Rightarrow> Rejected reason)"
  using assms by (simp add: searchPromises_def search_response_def nth_enumerate_eq)

lemma length_aggregate: "length (aggregate config ss) = length ss"
  by (simp add: aggregate_def)

lemma nth_aggregate:
  assumes "i < length ss"
  shows "aggregate config ss ! i =
           (case ss ! i of
              Fulfilled v \<Rightarrow> v
            | Rejected reason \<Rightarrow>
                \<lparr>AggregatedSearchResult.documentName = name (documents config ! i),
                 results = None,
                 error = Some (case reason of
                                 Some m \<Rightarrow> if m \<noteq> [] then m else ''Promise rejected''
                               | None \<Rightarrow> ''Promise rejected'')\<rparr>)"
  using assms by (simp add: aggregate_def nth_enumerate_eq)

lemma results_searchAllNotes:
  "SearchAllResult.results (searchAllNotes search config q cs) =
     aggregate config (searchPromises search config q cs)"
  by (simp add: searchAllNotes_def Let_def)

lemma searchTask_name: "AggregatedSearchResult.documentName (searchTask doc r) = name doc"
  by (simp add: searchTask_def split: bool.splits option.splits)

lemma entry_name:
  assumes "i < length (documents config)"
  shows "AggregatedSearchResult.documentName
           (aggregate config (searchPromises search config q cs) ! i) = name (documents config ! i)"
  using assms
  by (simp add: nth_aggregate length_searchPromises nth_searchPromises searchTask_name
           split: settled.splits)

text \<open>
  Claim C1.  For every configuration and every query, whatever the search calls do (return a
  success, return a failure, or throw), \<^verbatim>\<open>searchAllNotes\<close> returns as many entries as
  there are configured documents, the entry at each position carries the name of the
  document at that position, and \<^verbatim>\<open>documentsSearched\<close> is the number of configured
  documents.
\<close>

theorem searchAllNotes_one_entry_per_document:
  "length (SearchAllResult.results (searchAllNotes search config q cs)) = length (documents config)
   \<and> map AggregatedSearchResult.documentName (SearchAllResult.results (searchAllNotes search config q cs))
       = map name (documents config)
   \<and> documentsSearched (searchAllNotes search config q cs) = length (documents config)"
proof -
  let ?rs = "SearchAllResult.results (searchAllNotes search config q cs)"
  have len: "length ?rs = length (documents config)"
    by (simp add: results_searchAllNotes length_aggregate length_searchPromises)
  have names: "map AggregatedSearchResult.documentName ?rs = map name (documents config)"
    by (rule nth_equalityI)
       (simp_all add: results_searchAllNotes length_aggregate length_searchPromises entry_name)
  have "documentsSearched (searchAllNotes search config q cs) = length (documents config)"
    by (simp add: searchAllNotes_def Let_def)
  with len names show ?thesis by simp
qed

lemma entry_shape:
  assumes "i < length (documents config)"
  shows "aggregate config (searchPromises search config q cs) ! i =
     (case search_response search config q cs i of
        Fulfilled r \<Rightarrow> searchTask (documents config ! i) r
      | Rejected reason \<Rightarrow> \<lparr>AggregatedSearchResult.documentName = name (documents config ! i),
                 results = None,
                 error = Some (case reason of
                                 Some m \<Rightarrow> if m \<noteq> [] then m else ''Promise rejected''
                               | None \<Rightarrow> ''Promise rejected'')\<rparr>)"
  using assms
  by (simp add: nth_aggregate length_searchPromises nth_searchPromises split: settled.splits)

lemma searchTask_success:
  "SearchResponse.success r \<Longrightarrow> SearchResponse.results r = Some rs \<Longrightarrow>
   searchTask doc r = \<lparr>AggregatedSearchResult.documentName = name doc,
           results = Some (map (\<lambda>r. r\<lparr>SearchResult.documentName := Some (name doc)\<rparr>) rs),
           error = None\<rparr>"
  by (simp add: searchTask_def)

lemma searchTask_failure:
  "\<not> (SearchResponse.success r \<and> SearchResponse.results r \<noteq> None) \<Longrightarrow>
   AggregatedSearchResult.results (searchTask doc r) = None \<and>
   (\<exists>e. AggregatedSearchResult.error (searchTask doc r) = Some e \<and> e \<noteq> [])"
  by (auto simp add: searchTask_def split: bool.splits option.splits)


lemma entry_of_call:
  assumes "i < length (documents config)"
  shows "let e = SearchAllResult.results (searchAllNotes search config q cs) ! i in
         entry_results e = hits (search_response search config q cs i) \<and>
         (if call_succeeded (search_response search config q cs i)
          then AggregatedSearchResult.results e \<noteq> None \<and> AggregatedSearchResult.error e = None
          else AggregatedSearchResult.results e = None \<and>
               (\<exists>m. AggregatedSearchResult.error e = Some m \<and> m \<noteq> []))"
proof (cases "search_response search config q cs i")
  case (Fulfilled r)
  show ?thesis
  proof (cases "SearchResponse.success r \<and> SearchResponse.results r \<noteq> None")
    case True
    then obtain rs where "SearchResponse.success r" "SearchResponse.results r = Some rs" by auto
    with Fulfilled assms show ?thesis
      by (simp add: results_searchAllNotes entry_shape searchTask_success entry_results_def)
  next
    case False
    with Fulfilled assms searchTask_failure [OF False] show ?thesis
      by (auto simp add: results_searchAllNotes entry_shape entry_results_def
               split: bool.splits option.splits)
  qed
next
  case (Rejected reason)
  with assms show ?thesis
    by (simp add: results_searchAllNotes entry_shape entry_results_def split: option.splits)
qed

text \<open>
  Claim C9.  Every entry of the aggregated result has exactly one of \<^verbatim>\<open>results\<close> and
  \<^verbatim>\<open>error\<close>: the entry of a successful call has results and no error, the entry of a
  failed or rejected call has a non-empty error and no results.
\<close>

theorem searchAllNotes_results_xor_error:
  "(\<forall>e \<in> set (SearchAllResult.results (searchAllNotes search config q cs)).
      (AggregatedSearchResult.results e = None) \<noteq> (AggregatedSearchResult.error e = None))
   \<and> (\<forall>i < length (documents config).
        let e = SearchAllResult.results (searchAllNotes search config q cs) ! i in
        if call_succeeded (search_response search config q cs i)
        then AggregatedSearchResult.results e \<noteq> None \<and> AggregatedSearchResult.error e = None
        else AggregatedSearchResult.results e = None \<and>
             (\<exists>m. AggregatedSearchResult.error e = Some m \<and> m \<noteq> []))"
proof (intro conjI ballI allI impI)
  fix e
  assume "e \<in> set (SearchAllResult.results (searchAllNotes search config q cs))"
  then obtain i where i: "i < length (documents config)"
      and e: "e = SearchAllResult.results (searchAllNotes search config q cs) ! i"
    by (auto simp add: in_set_conv_nth results_searchAllNotes length_aggregate length_searchPromises)
  from entry_of_call [OF i, of search q cs] e
  show "(AggregatedSearchResult.results e = None) \<noteq> (AggregatedSearchResult.error e = None)"
    by (auto simp add: Let_def split: if_splits)
next
  fix i
  assume "i < length (documents config)"
  from entry_of_call [OF this, of search q cs]
  show "let e = SearchAllResult.results (searchAllNotes search config q cs) ! i in
        if call_succeeded (search_response search config q cs i)
        then AggregatedSearchResult.results e \<noteq> None \<and> AggregatedSearchResult.error e = None
        else AggregatedSearchResult.results e = None \<and>
             (\<exists>m. AggregatedSearchResult.error e = Some m \<and> m \<noteq> [])"
    by (simp add: Let_def)
qed

lemma foldl_plus: "foldl (\<lambda>sum doc. sum + f doc) (a::nat) xs = a + sum_list (map f xs)"
  by (induction xs arbitrary: a) simp_all

lemma totalResults_entries:
  "totalResults (searchAllNotes search config q cs) =
     sum_list (map entry_results (SearchAllResult.results (searchAllNotes search config q cs)))"
proof -
  have "totalResults (searchAllNotes search config q cs) =
          foldl (\<lambda>sum doc. sum + entry_results doc) 0
            (aggregate config (searchPromises search config q cs))"
    by (simp add: searchAllNotes_def Let_def entry_results_def)
  then show ?thesis
    by (simp add: foldl_plus results_searchAllNotes)
qed

lemma totalResults_calls:
  "totalResults (searchAllNotes search config q cs) =
     (\<Sum>i<length (documents config). hits (search_response search config q cs i))"
proof -
  let ?rs = "SearchAllResult.results (searchAllNotes search config q cs)"
  have len: "length ?rs = length (documents config)"
    by (simp add: results_searchAllNotes length_aggregate length_searchPromises)
  have "sum_list (map entry_results ?rs) = (\<Sum>i<length ?rs. entry_results (?rs ! i))"
    by (simp add: sum_list_sum_nth atLeast0LessThan)
  also have "\<dots> = (\<Sum>i<length (documents config). hits (search_response search config q cs i))"
    unfolding len
  proof (rule sum.cong)
    fix i assume "i \<in> {..<length (documents config)}"
    then have "i < length (documents config)" by simp
    from entry_of_call [OF this, of search q cs]
    show "entry_results (?rs ! i) = hits (search_response search config q cs i)"
      by (simp add: Let_def)
  qed simp
  finally show ?thesis by (simp add: totalResults_entries)
qed

lemma errors_all_failed:
  assumes "\<forall>i<length (documents config). \<not> call_succeeded (search_response search config q cs i)"
  shows "filter (\<lambda>doc. case AggregatedSearchResult.error doc of Some e \<Rightarrow> e \<noteq> [] | None \<Rightarrow> False)
           (SearchAllResult.results (searchAllNotes search config q cs))
         = SearchAllResult.results (searchAllNotes search config q cs)"
proof (rule filter_True, rule ballI)
  fix e
  assume "e \<in> set (SearchAllResult.results (searchAllNotes search config q cs))"
  then obtain i where i: "i < length (documents config)"
      and e: "e = SearchAllResult.results (searchAllNotes search config q cs) ! i"
    by (auto simp add: in_set_conv_nth results_searchAllNotes length_aggregate length_searchPromises)
  from entry_of_call [OF i, of search q cs] assms i e
  show "case AggregatedSearchResult.error e of Some e \<Rightarrow> e \<noteq> [] | None \<Rightarrow> False"
    by (auto simp add: Let_def)
qed

text \<open>
  Claim C2.  \<^verbatim>\<open>totalResults\<close> is the sum, over the configured documents, of the number of
  results of the successful calls, failed and rejected calls counting zero; it is also the
  sum of the lengths of the \<^verbatim>\<open>results\<close> arrays of the entries.  When every call fails,
  \<^verbatim>\<open>totalResults\<close> is 0 and the errors array has one entry per configured document (the
  field is left out exactly when no document is configured).
\<close>

theorem searchAllNotes_totalResults:
  "totalResults (searchAllNotes search config q cs) =
     (\<Sum>i<length (documents config). hits (search_response search config q cs i))
   \<and> totalResults (searchAllNotes search config q cs) =
     sum_list (map entry_results (SearchAllResult.results (searchAllNotes search config q cs)))
   \<and> ((\<forall>i<length (documents config). \<not> call_succeeded (search_response search config q cs i))
        \<longrightarrow> totalResults (searchAllNotes search config q cs) = 0
          \<and> length (case errors (searchAllNotes search config q cs) of Some es \<Rightarrow> es | None \<Rightarrow> [])
              = length (documents config)
          \<and> (errors (searchAllNotes search config q cs) = None \<longleftrightarrow> documents config = []))"
proof (intro conjI impI)
  assume fail: "\<forall>i<length (documents config). \<not> call_succeeded (search_response search config q cs i)"
  let ?R = "searchAllNotes search config q cs"
  have len: "length (SearchAllResult.results ?R) = length (documents config)"
    by (simp add: results_searchAllNotes length_aggregate length_searchPromises)
  have "hits (search_response search config q cs i) = 0" if "i < length (documents config)" for i
    using fail that by (cases "search_response search config q cs i")
      (auto split: bool.splits option.splits)
  then show "totalResults ?R = 0"
    by (simp add: totalResults_calls)
  have errs: "errors ?R = (if length (SearchAllResult.results ?R) > 0
                           then Some (SearchAllResult.results ?R) else None)"
    using errors_all_failed [OF fail]
    by (simp add: searchAllNotes_def Let_def results_searchAllNotes)
  show "length (case errors ?R of Some es \<Rightarrow> es | None \<Rightarrow> []) = length (documents config)"
    using len by (simp add: errs)
  show "errors ?R = None \<longleftrightarrow> documents config = []"
    using len by (simp add: errs)
qed (rule totalResults_calls, rule totalResults_entries)


theorem searchAllNotes_results_xor_error_witness:
  "AggregatedSearchResult.results
     (SearchAllResult.results (searchAllNotes one_fails two_documents ''q'' None) ! 0) \<noteq> None
   \<and> AggregatedSearchResult.error
     (SearchAllResult.results (searchAllNotes one_fails two_documents ''q'' None) ! 0) = None
   \<and> AggregatedSearchResult.results
     (SearchAllResult.results (searchAllNotes one_fails two_documents ''q'' None) ! 1) = None
   \<and> AggregatedSearchResult.error
     (SearchAllResult.results (searchAllNotes one_fails two_documents ''q'' None) ! 1) \<noteq> None"
proof -
  have ok: "call_succeeded (search_response one_fails two_documents ''q'' None 0)"
    by (simp add: search_response_def one_fails_def two_matches_def)
  have ko: "\<not> call_succeeded (search_response one_fails two_documents ''q'' None 1)"
    by (simp add: search_response_def one_fails_def timed_out_def)
  have n: "(0::nat) < length (documents two_documents)" "(1::nat) < length (documents two_documents)"
    by (simp_all add: two_documents_def)
  have all: "\<forall>i < length (documents two_documents).
        let e = SearchAllResult.results (searchAllNotes one_fails two_documents ''q'' None) ! i in
        if call_succeeded (search_response one_fails two_documents ''q'' None i)
        then AggregatedSearchResult.results e \<noteq> None \<and> AggregatedSearchResult.error e = None
        else AggregatedSearchResult.results e = None \<and>
             (\<exists>m. AggregatedSearchResult.error e = Some m \<and> m \<noteq> [])"
    using searchAllNotes_results_xor_error [of one_fails two_documents "''q''" None] by blast
  from all [rule_format, OF n(1)] ok all [rule_format, OF n(2)] ko show ?thesis
    by (auto simp add: Let_def)
qed

theorem searchAllNotes_totalResults_witness:
  "totalResults (searchAllNotes both_fail two_documents ''q'' None) = 0
   \<and> length (case errors (searchAllNotes both_fail two_documents ''q'' None) of
               Some es \<Rightarrow> es | None \<Rightarrow> []) = 2
   \<and> totalResults (searchAllNotes one_fails two_documents ''q'' None) = 2"
proof -
  have fail: "\<forall>i<length (documents two_documents).
                \<not> call_succeeded (search_response both_fail two_documents ''q'' None i)"
    by (simp add: search_response_def both_fail_def timed_out_def)
  have two: "(\<Sum>i<length (documents two_documents).
                hits (search_response one_fails two_documents ''q'' None i)) = 2"
    by (simp add: two_documents_def search_response_def one_fails_def two_matches_def
          timed_out_def lessThan_Suc numeral_2_eq_2)
  from searchAllNotes_totalResults [of both_fail two_documents "''q''" None] fail
    searchAllNotes_totalResults [of one_fails two_documents "''q''" None] two
  show ?thesis
    by (simp add: two_documents_def)
qed


section \<open>Properties of the single-document tools and of the client\<close>

lemma find_document_unknown:
  assumes "wanted \<notin> set (map name (documents config))"
  shows "find_document config wanted = None"
  using assms by (auto simp add: find_document_def find_None_iff)

text \<open>
  Claim C8.  When the requested name equals no configured name, \<^verbatim>\<open>searchDocument\<close>,
  \<^verbatim>\<open>readDocument\<close> and \<^verbatim>\<open>readBlock\<close> each return the object with the error message and
  with \<^verbatim>\<open>availableDocuments\<close> equal to the configured names in configuration order; they
  make no upstream call, and the configuration the caller holds afterwards is the one it
  passed.
\<close>

theorem unknown_document_soft_error:
  assumes "wanted \<notin> set (map name (documents config))"
  shows "searchDocument get config wanted q cs =
           (SearchNotFound (not_found_message wanted) (map name (documents config)), config)
       \<and> readDocument get config wanted depth =
           (ReadNotFound (not_found_message wanted) (map name (documents config)), config)
       \<and> readBlock get config wanted blockId =
           (BlockNotFound (not_found_message wanted) (map name (documents config)), config)"
  using find_document_unknown [OF assms]
  by (simp add: searchDocument_def readDocument_def readBlock_def)

theorem unknown_document_soft_error_witness:
  "searchDocument (answering (Inl timeout_error)) two_documents ''X'' ''q'' None =
           (SearchNotFound (not_found_message ''X'') [''A'', ''B''], two_documents)
       \<and> readDocument (answering (Inl timeout_error)) two_documents ''X'' None =
           (ReadNotFound (not_found_message ''X'') [''A'', ''B''], two_documents)
       \<and> readBlock (answering (Inl timeout_error)) two_documents ''X'' ''b1'' =
           (BlockNotFound (not_found_message ''X'') [''A'', ''B''], two_documents)"
proof -
  have "''X'' \<notin> set (map name (documents two_documents))"
    by (simp add: two_documents_def)
  from unknown_document_soft_error [OF this, of "answering (Inl timeout_error)" "''q''" None None "''b1''"]
  show ?thesis by (simp add: two_documents_def)
qed

text \<open>
  Claim C10.  When the search request resolves with a body that is not an array,
  \<^verbatim>\<open>searchBlocks\<close> returns \<^verbatim>\<open>success = true\<close> with an empty result list and no error,
  which is also what it returns for an upstream that answers with the empty array.
\<close>

theorem searchBlocks_non_array_body:
  assumes "get (searchBlocks_request endpoint searchParams) = Inr d" and "\<not> isArray d"
  shows "searchBlocks get endpoint searchParams =
           \<lparr>SearchResponse.success = True, results = Some [], error = None\<rparr>
       \<and> searchBlocks get endpoint searchParams =
           searchBlocks (answering (Inr (JArr []))) endpoint searchParams"
  using assms by (cases d) (simp_all add: searchBlocks_def answering_def)

theorem searchBlocks_non_array_body_witness:
  "searchBlocks (answering (Inr (JObj [(''message'', JStr ''ok'')]))) ''http://a'' search_for_x =
           \<lparr>SearchResponse.success = True, results = Some [], error = None\<rparr>
   \<and> searchBlocks (answering (Inr (JObj [(''message'', JStr ''ok'')]))) ''http://a'' search_for_x =
           searchBlocks (answering (Inr (JArr []))) ''http://a'' search_for_x"
proof -
  have "answering (Inr (JObj [(''message'', JStr ''ok'')])) (searchBlocks_request ''http://a'' search_for_x)
          = Inr (JObj [(''message'', JStr ''ok'')])"
    by (simp add: answering_def)
  moreover have "\<not> isArray (JObj [(''message'', JStr ''ok'')])" by simp
  ultimately show ?thesis by (rule searchBlocks_non_array_body)
qed

text \<open>
  Claim C7, as amended.  Both client functions send their request with a timeout of 30000
  milliseconds, and whenever the request is rejected (timeout, transport failure, status
  outside 2xx) they return \<^verbatim>\<open>success = false\<close> with an error string: the serialised
  response body when the rejection carries a body that JavaScript takes for true; otherwise
  the message of the rejection, or \<^verbatim>\<open>Unknown error occurred\<close> when that message is empty.
  The functions of the embedding are total: for every outcome of the request they return a
  response.
\<close>

theorem client_reports_failure:
  "timeout (fetchBlocks_request endpoint ps) = 30000
   \<and> timeout (searchBlocks_request endpoint searchParams) = 30000
   \<and> (get (fetchBlocks_request endpoint ps) = Inl e \<longrightarrow>
        (\<exists>s. fetchBlocks get endpoint ps =
               \<lparr>BlocksResponse.success = False, data = None, error = Some s\<rparr>
           \<and> (\<forall>d. response_data e = Some d \<and> truthy d \<longrightarrow> s = stringify d)
           \<and> ((\<nexists>d. response_data e = Some d \<and> truthy d) \<longrightarrow>
                s = (if message e = [] then ''Unknown error occurred'' else message e))))
   \<and> (get (searchBlocks_request endpoint searchParams) = Inl e \<longrightarrow>
        (\<exists>s. searchBlocks get endpoint searchParams =
               \<lparr>SearchResponse.success = False, results = None, error = Some s\<rparr>
           \<and> (\<forall>d. response_data e = Some d \<and> truthy d \<longrightarrow> s = stringify d)
           \<and> ((\<nexists>d. response_data e = Some d \<and> truthy d) \<longrightarrow>
                s = (if message e = [] then ''Unknown error occurred'' else message e))))"
  by (auto simp add: fetchBlocks_request_def searchBlocks_request_def fetchBlocks_def
        searchBlocks_def caught_error_def split: option.splits)

theorem client_reports_failure_witness:
  "fetchBlocks (answering (Inl timeout_error)) ''http://a'' None =
     \<lparr>BlocksResponse.success = False, data = None, error = Some ''timeout of 30000ms exceeded''\<rparr>
   \<and> searchBlocks (answering (Inl not_found_error)) ''http://a'' search_for_x =
     \<lparr>SearchResponse.success = False, results = None,
      error = Some (stringify (JObj [(''error'', JStr ''Not found'')]))\<rparr>
   \<and> fetchBlocks (answering (Inl false_body_error)) ''http://a'' None =
     \<lparr>BlocksResponse.success = False, data = None,
      error = Some ''Request failed with status code 500''\<rparr>
   \<and> searchBlocks (answering (Inl silent_error)) ''http://a'' search_for_x =
     \<lparr>SearchResponse.success = False, results = None, error = Some ''Unknown error occurred''\<rparr>"
  using client_reports_failure [of "''http://a''" None search_for_x "answering (Inl timeout_error)" timeout_error]
    client_reports_failure [of "''http://a''" None search_for_x "answering (Inl not_found_error)" not_found_error]
    client_reports_failure [of "''http://a''" None search_for_x "answering (Inl false_body_error)" false_body_error]
    client_reports_failure [of "''http://a''" None search_for_x "answering (Inl silent_error)" silent_error]
  by (auto simp add: answering_def timeout_error_def not_found_error_def false_body_error_def silent_error_def)

text \<open>
  Claim C7 as stated fails: a rejection whose body is the JSON value \<^verbatim>\<open>false\<close> is reported
  by its message, not by its body, and a rejection with an empty message and no body is
  reported by a fixed text.
\<close>

theorem client_error_from_body_counterexample:
  "response_data false_body_error = Some (JBool False)
   \<and> BlocksResponse.error (fetchBlocks (answering (Inl false_body_error)) ''http://a'' None)
       = Some (message false_body_error)
   \<and> BlocksResponse.error (fetchBlocks (answering (Inl false_body_error)) ''http://a'' None)
       \<noteq> Some (stringify (JBool False))
   \<and> SearchResponse.error (searchBlocks (answering (Inl silent_error)) ''http://a'' search_for_x)
       \<noteq> Some (message silent_error)"
  by (simp add: fetchBlocks_def searchBlocks_def answering_def caught_error_def
        false_body_error_def silent_error_def)



subsection \<open>Two scenarios, run through the client\<close>

text \<open>
  Document A answers with two matches and the request for B times out: two results in
  total, two documents searched, one entry per document in order, and the entry of B
  repeated under \<^verbatim>\<open>errors\<close>.
\<close>

lemma scenario_partial_failure:
  "searchAllNotes (client_search scenario_http) two_documents ''q'' None =
     \<lparr>query = ''q'', caseSensitive = False, totalResults = 2, documentsSearched = 2,
      results =
        [\<lparr>AggregatedSearchResult.documentName = ''A'',
          results = Some [\<lparr>block = JObj [(''id'', JStr ''1'')], documentName = Some ''A'',
                            path = None\<rparr>,
                          \<lparr>block = JObj [(''id'', JStr ''2'')], documentName = Some ''A'',
                            path = None\<rparr>],
          error = None\<rparr>,
         \<lparr>AggregatedSearchResult.documentName = ''B'', results = None,
          error = Some ''timeout of 30000ms exceeded''\<rparr>],
      errors =
        Some [\<lparr>AggregatedSearchResult.documentName = ''B'', results = None,
               error = Some ''timeout of 30000ms exceeded''\<rparr>]\<rparr>"
  by (simp add: searchAllNotes_def aggregate_def searchPromises_def client_search_def
        scenario_http_def two_documents_def searchBlocks_def answering_def searchTask_def
        timeout_error_def caught_error_def Let_def numeral_2_eq_2)

text \<open>Reading a block the upstream does not have gives an object with an error text.\<close>

lemma scenario_missing_block:
  "readBlock (answering (Inl not_found_error)) notes_config ''Notes'' ''missing-id'' =
     (BlockFailed ''Notes'' ''missing-id'' (stringify (JObj [(''error'', JStr ''Not found'')])),
      notes_config)"
  by (simp add: readBlock_def find_document_def notes_config_def fetchBlocks_def
        answering_def not_found_error_def caught_error_def)

section \<open>Properties of the response bounder\<close>

lemma truncateArray_prefix:
  "\<exists>k\<le>length xs.
     truncateArray t xs cur acc =
       acc @ take k xs @ (if k < length xs then [truncation_marker (length xs - k)] else [])
     \<and> (\<forall>j. 1 \<le> j \<and> j \<le> k \<longrightarrow>
           within_budget t (cur + sum_list (map calculateResponseSize (take j xs))))
     \<and> (k < length xs \<longrightarrow>
           \<not> within_budget t (cur + sum_list (map calculateResponseSize (take (Suc k) xs))))"
proof (induction xs arbitrary: cur acc)
  case Nil
  show ?case by simp
next
  case (Cons x xs)
  show ?case
  proof (cases "within_budget t (cur + calculateResponseSize x)")
    case False
    then have "truncateArray t (x # xs) cur acc = acc @ [truncation_marker (length (x # xs))]"
      by (simp add: within_budget_def Let_def not_le)
    with False show ?thesis
      by (intro exI [of _ 0]) simp
  next
    case True
    from Cons.IH [of "cur + calculateResponseSize x" "acc @ [x]"]
    obtain k where k: "k \<le> length xs"
      and eq: "truncateArray t xs (cur + calculateResponseSize x) (acc @ [x]) =
                 (acc @ [x]) @ take k xs @
                 (if k < length xs then [truncation_marker (length xs - k)] else [])"
      and fits: "\<forall>j. 1 \<le> j \<and> j \<le> k \<longrightarrow>
                   within_budget t (cur + calculateResponseSize x
                     + sum_list (map calculateResponseSize (take j xs)))"
      and stop: "k < length xs \<longrightarrow>
                   \<not> within_budget t (cur + calculateResponseSize x
                     + sum_list (map calculateResponseSize (take (Suc k) xs)))"
      by blast
    have run: "truncateArray t (x # xs) cur acc =
                 truncateArray t xs (cur + calculateResponseSize x) (acc @ [x])"
      using True by (simp add: within_budget_def Let_def not_less)
    have "\<forall>j. 1 \<le> j \<and> j \<le> Suc k \<longrightarrow>
            within_budget t (cur + sum_list (map calculateResponseSize (take j (x # xs))))"
    proof (intro allI impI)
      fix j assume j: "1 \<le> j \<and> j \<le> Suc k"
      then obtain j' where j': "j = Suc j'" by (cases j) auto
      show "within_budget t (cur + sum_list (map calculateResponseSize (take j (x # xs))))"
      proof (cases "j' = 0")
        case True
        with j' \<open>within_budget t (cur + calculateResponseSize x)\<close> show ?thesis by simp
      next
        case False
        with j j' fits have "within_budget t (cur + calculateResponseSize x
                     + sum_list (map calculateResponseSize (take j' xs)))" by simp
        with j' show ?thesis by (simp add: add.assoc)
      qed
    qed
    with k eq stop run show ?thesis
      by (intro exI [of _ "Suc k"]) (simp add: add.assoc)
  qed
qed

text \<open>
  The shape of what the array branch returns: a prefix of the original elements, unchanged,
  cut at the first element with which the running size would exceed nine tenths of the
  target, and, when elements are left, one marker element that states their number.
\<close>

lemma truncateObject_array_shape:
  "\<exists>k\<le>length xs.
     truncateObject (JArr xs) t =
       JArr (take k xs @ (if k < length xs then [truncation_marker (length xs - k)] else []))
     \<and> (\<forall>j. 1 \<le> j \<and> j \<le> k \<longrightarrow> within_budget t (running_size (take j xs)))
     \<and> (k < length xs \<longrightarrow> \<not> within_budget t (running_size (take (Suc k) xs)))"
  using truncateArray_prefix [of xs t 2 "[]"]
  by (simp add: truncateObject_def running_size_def)

lemma set_property_fresh:
  "key \<notin> set (map fst ps) \<Longrightarrow> set_property ps key v = ps @ [(key, v)]"
  by (induction ps) auto

lemma set_property_present:
  "key \<in> set (map fst ps) \<Longrightarrow> distinct (map fst ps) \<Longrightarrow>
   set_property ps key v = map (\<lambda>(k, w). (k, if k = key then v else w)) ps"
proof (induction ps)
  case Nil
  then show ?case by simp
next
  case (Cons p ps)
  obtain k w where p: "p = (k, w)" by (cases p)
  show ?case
  proof (cases "k = key")
    case True
    with Cons.prems p have "key \<notin> set (map fst ps)" by simp
    then have "map (\<lambda>(k, w). (k, if k = key then v else w)) ps = ps"
      by (induction ps) auto
    with True p show ?thesis by simp
  next
    case False
    with Cons p show ?thesis by simp
  qed
qed

lemma assign_property_remaining:
  "assign_property ps ''_remaining'' v = set_property ps ''_remaining'' v"
  by (simp add: assign_property_def)

lemma map_fst_kept_fields:
  "map fst (kept_fields t props) = filter (\<lambda>key. key \<noteq> ''__proto__'') (map fst props)"
  by (simp add: kept_fields_def filter_map comp_def case_prod_unfold)

lemma kept_fields_Cons:
  "kept_fields t (p # props) = kept_fields t [p] @ kept_fields t props"
  by (simp add: kept_fields_def)

lemma assign_property_kept:
  assumes "key \<notin> set (map fst acc)"
  shows "assign_property acc key (truncateField t v) = acc @ kept_fields t [(key, v)]"
  using assms by (simp add: assign_property_def kept_fields_def set_property_fresh)

lemma truncateFields_prefix:
  assumes "distinct (map fst acc @ map fst props)"
  shows "\<exists>k\<le>length props.
     truncateFields t props cur acc =
       (if k < length props
        then set_property (acc @ kept_fields t (take k props)) ''_remaining'' remaining_marker
        else acc @ kept_fields t (take k props))
     \<and> (\<forall>j. 1 \<le> j \<and> j \<le> k \<longrightarrow>
           within_budget t (cur + sum_list (map pair_size (take j props))))
     \<and> (k < length props \<longrightarrow>
           \<not> within_budget t (cur + sum_list (map pair_size (take (Suc k) props))))"
  using assms
proof (induction props arbitrary: cur acc)
  case Nil
  show ?case by (simp add: kept_fields_def)
next
  case (Cons p props)
  obtain key v where p: "p = (key, v)" by (cases p)
  show ?case
  proof (cases "within_budget t (cur + pair_size p)")
    case False
    then have "truncateFields t (p # props) cur acc =
                 set_property acc ''_remaining'' remaining_marker"
      by (simp add: p within_budget_def pair_size_def Let_def not_le assign_property_remaining)
    with False show ?thesis
      by (intro exI [of _ 0]) (simp add: kept_fields_def)
  next
    case True
    have fresh: "key \<notin> set (map fst acc)"
      using Cons.prems p by auto
    have run: "truncateFields t (p # props) cur acc =
                 truncateFields t props (cur + pair_size p) (acc @ kept_fields t [p])"
      using True by (simp add: p within_budget_def pair_size_def Let_def not_less
          assign_property_kept [OF fresh])
    have "set (map fst (kept_fields t [p])) \<subseteq> {key}"
      by (simp add: kept_fields_def p)
    with Cons.prems p have "distinct (map fst (acc @ kept_fields t [p]) @ map fst props)"
      by (auto simp add: map_fst_kept_fields)
    from Cons.IH [OF this, of "cur + pair_size p"]
    obtain k where k: "k \<le> length props"
      and eq: "truncateFields t props (cur + pair_size p) (acc @ kept_fields t [p]) =
                 (if k < length props
                  then set_property ((acc @ kept_fields t [p]) @ kept_fields t (take k props))
                         ''_remaining'' remaining_marker
                  else (acc @ kept_fields t [p]) @ kept_fields t (take k props))"
      and fits: "\<forall>j. 1 \<le> j \<and> j \<le> k \<longrightarrow>
                   within_budget t (cur + pair_size p + sum_list (map pair_size (take j props)))"
      and stop: "k < length props \<longrightarrow>
                   \<not> within_budget t (cur + pair_size p
                       + sum_list (map pair_size (take (Suc k) props)))"
      by blast
    have kept: "kept_fields t (take (Suc k) (p # props)) =
                  kept_fields t [p] @ kept_fields t (take k props)"
      using kept_fields_Cons [of t p "take k props"] by simp
    have "\<forall>j. 1 \<le> j \<and> j \<le> Suc k \<longrightarrow>
            within_budget t (cur + sum_list (map pair_size (take j (p # props))))"
    proof (intro allI impI)
      fix j assume j: "1 \<le> j \<and> j \<le> Suc k"
      then obtain j' where j': "j = Suc j'" by (cases j) auto
      show "within_budget t (cur + sum_list (map pair_size (take j (p # props))))"
      proof (cases "j' = 0")
        case True
        with j' \<open>within_budget t (cur + pair_size p)\<close> show ?thesis by simp
      next
        case False
        with j j' fits have "within_budget t (cur + pair_size p
                     + sum_list (map pair_size (take j' props)))" by simp
        with j' show ?thesis by (simp add: add.assoc)
      qed
    qed
    moreover have "truncateFields t (p # props) cur acc =
       (if Suc k < length (p # props)
        then set_property (acc @ kept_fields t (take (Suc k) (p # props)))
               ''_remaining'' remaining_marker
        else acc @ kept_fields t (take (Suc k) (p # props)))"
      unfolding kept run eq by simp
    moreover have "Suc k < length (p # props) \<longrightarrow>
           \<not> within_budget t (cur + sum_list (map pair_size (take (Suc (Suc k)) (p # props))))"
      using stop by (simp add: add.assoc)
    moreover have "Suc k \<le> length (p # props)" using k by simp
    ultimately show ?thesis by blast
  qed
qed

lemma truncateField_cases:
  "truncateField t (JArr items) =
     (if length items > 10 then truncateObject (JArr items) (t / 4) else JArr items)"
  "truncateField t (JStr s) =
     (if length s > 1000 then JStr (take 1000 s @ ''... (truncated)'') else JStr s)"
  "truncateField t JNull = JNull"
  "truncateField t (JBool b) = JBool b"
  "truncateField t (JNum i) = JNum i"
  "truncateField t (JObj props) = JObj props"
  by (simp_all add: truncateField_def truncateObject_def)

text \<open>
  The shape of what the object branch returns, for an object with distinct keys: the fields
  are taken in order until the first one with which the running size would exceed nine
  tenths of the target; a field taken is stored as \<open>truncateField\<close> gives it, except that a
  field called \<^verbatim>\<open>__proto__\<close> is not stored; and when fields are left, the property
  \<^verbatim>\<open>_remaining\<close> is set to the marker, which replaces the value of a field of that name
  when one was taken.
\<close>

lemma truncateObject_object_shape:
  assumes "distinct (map fst props)"
  shows "\<exists>k\<le>length props.
     truncateObject (JObj props) t =
       JObj (if k = length props then kept_fields t (take k props)
             else if ''_remaining'' \<in> set (map fst (kept_fields t (take k props)))
             then map (\<lambda>(key, v). (key, if key = ''_remaining'' then remaining_marker else v))
                    (kept_fields t (take k props))
             else kept_fields t (take k props) @ [(''_remaining'', remaining_marker)])
     \<and> (\<forall>j. 1 \<le> j \<and> j \<le> k \<longrightarrow> within_budget t (running_fields_size (take j props)))
     \<and> (k < length props \<longrightarrow> \<not> within_budget t (running_fields_size (take (Suc k) props)))"
proof -
  from assms have "distinct (map fst [] @ map fst props)" by simp
  from truncateFields_prefix [OF this, of t 2]
  obtain k where k: "k \<le> length props"
    and eq: "truncateFields t props 2 [] =
       (if k < length props
        then set_property (kept_fields t (take k props)) ''_remaining'' remaining_marker
        else kept_fields t (take k props))"
    and fits: "\<forall>j. 1 \<le> j \<and> j \<le> k \<longrightarrow>
           within_budget t (2 + sum_list (map pair_size (take j props)))"
    and stop: "k < length props \<longrightarrow>
           \<not> within_budget t (2 + sum_list (map pair_size (take (Suc k) props)))"
    by auto
  have d: "distinct (map fst (kept_fields t (take k props)))"
    using assms by (simp add: map_fst_kept_fields distinct_take flip: take_map)
  have "set_property (kept_fields t (take k props)) ''_remaining'' remaining_marker =
          (if ''_remaining'' \<in> set (map fst (kept_fields t (take k props)))
           then map (\<lambda>(key, v). (key, if key = ''_remaining'' then remaining_marker else v))
                  (kept_fields t (take k props))
           else kept_fields t (take k props) @ [(''_remaining'', remaining_marker)])"
    using set_property_present [OF _ d, of "''_remaining''" remaining_marker]
      set_property_fresh [of "''_remaining''" "kept_fields t (take k props)" remaining_marker]
    by simp
  with k eq fits stop show ?thesis
    by (intro exI [of _ k]) (auto simp add: truncateObject_def running_fields_size_def)
qed

text \<open>The two branches on small inputs, and the two keys that are not stored as given.\<close>

lemma truncateObject_array_example:
  "truncateObject (JArr short_array) 5 = JArr [JNum 1, JNum 2, truncation_marker 1]"
  by code_simp

lemma truncateObject_object_example:
  "truncateObject (JObj two_fields) 100 =
     JObj [(''l'', JArr (replicate 20 (JNum 1) @ [truncation_marker 10])),
           (''_remaining'', remaining_marker)]"
  by code_simp

lemma remaining_marker_overwrites:
  "within_budget 30 (running_fields_size [(''_remaining'', JNum 1)])
   \<and> \<not> within_budget 30 (running_fields_size remaining_first)
   \<and> truncateObject (JObj remaining_first) 30 = JObj [(''_remaining'', remaining_marker)]"
  by code_simp

lemma proto_field_not_stored:
  "truncateObject (JObj proto_first) 1000 = JObj [(''a'', JNum 1)]"
  by code_simp

text \<open>
  Claim C5.  The claim asks that the fields of an object are accumulated under the rule of
  nine tenths of the budget.  The loop charges each field with the size of the original
  pair and never measures what it stores.  On the object with an array of eleven ones and a
  string, 52 bytes against a target of 40, it takes the array field (charged 29 bytes, the
  running size 31 within the 36 allowed), stores the array truncated at a quarter of the
  target, seven ones and a marker, and sets the marker for the remaining field: the one
  accumulated field alone makes an object of 65 bytes, and the result has 112.
\<close>

theorem truncateObject_object_over_budget:
  "calculateResponseSize (JObj array_and_text) = 52
   \<and> within_budget 40 (running_fields_size [(''b'', JArr (replicate 11 (JNum 1)))])
   \<and> truncateObject (JObj array_and_text) 40 =
       JObj [(''b'', JArr (replicate 7 (JNum 1) @ [truncation_marker 4])),
             (''_remaining'', remaining_marker)]
   \<and> calculateResponseSize
        (JObj [(''b'', JArr (replicate 7 (JNum 1) @ [truncation_marker 4]))]) = 65
   \<and> \<not> within_budget 40 65
   \<and> calculateResponseSize (truncateObject (JObj array_and_text) 40) = 112"
  by code_simp

lemma truncateResponse_fits:
  assumes "of_nat (calculateResponseSize d) \<le> B"
  shows "truncateResponse d B =
           \<lparr>BoundedResponse.data = d,
            metadata = \<lparr>size_md = calculateResponseSize d, truncated = False,
                        originalSize = None\<rparr>\<rparr>"
  using assms by (simp add: truncateResponse_def)

text \<open>
  Claim C6.  When the data of a bounded response fits the budget, bounding it again at the
  same budget returns it unchanged with \<^verbatim>\<open>truncated = false\<close>.
\<close>

theorem rebound_not_truncated_again:
  assumes "of_nat (calculateResponseSize (BoundedResponse.data (truncateResponse v B))) \<le> B"
  shows "truncated (metadata (truncateResponse (BoundedResponse.data (truncateResponse v B)) B))
           = False
       \<and> BoundedResponse.data (truncateResponse (BoundedResponse.data (truncateResponse v B)) B)
           = BoundedResponse.data (truncateResponse v B)"
  by (simp add: truncateResponse_fits [OF assms])

theorem rebound_not_truncated_again_witness:
  "truncated (metadata (truncateResponse long_field 300)) = True
   \<and> truncated (metadata
        (truncateResponse (BoundedResponse.data (truncateResponse long_field 300)) 300)) = False
   \<and> BoundedResponse.data
        (truncateResponse (BoundedResponse.data (truncateResponse long_field 300)) 300)
       = BoundedResponse.data (truncateResponse long_field 300)"
proof -
  have first: "truncateResponse long_field 300 =
      \<lparr>BoundedResponse.data =
         JObj [(''_remaining'', remaining_marker),
               (''_metadata'',
                JObj [(''truncated'', JBool True), (''originalSize'', JNum 308),
                      (''truncatedSize'', JNum 48), (''message'', JStr truncation_message)])],
       metadata = \<lparr>size_md = 48, truncated = True, originalSize = Some 308\<rparr>\<rparr>"
    by code_simp
  have fits: "of_nat (calculateResponseSize (BoundedResponse.data (truncateResponse long_field 300)))
                \<le> (300 :: rat)"
    unfolding first by code_simp
  from rebound_not_truncated_again [OF fits] first show ?thesis
    by simp
qed

subsection \<open>Sizes, and an input the bounder leaves over budget\<close>

lemma byteLength_simps [simp]:
  "byteLength [] = 0"
  "byteLength (c # s) = utf8_bytes c + byteLength s"
  "byteLength (a @ b) = byteLength a + byteLength b"
  by (simp_all add: byteLength_def)

lemma utf8_bytes_ascii [simp]:
  "utf8_bytes CHR ''['' = 1" "utf8_bytes CHR '']'' = 1" "utf8_bytes CHR ''{'' = 1"
  "utf8_bytes CHR ''}'' = 1" "utf8_bytes CHR '','' = 1" "utf8_bytes CHR '':'' = 1"
  "utf8_bytes dquote = 1"
  by (simp_all add: utf8_bytes_def dquote_def)

lemma utf8_bytes_pos: "1 \<le> utf8_bytes c"
  by (simp add: utf8_bytes_def)

lemma byteLength_join:
  "byteLength (join '','' xs) = sum_list (map byteLength xs) + (length xs - 1)"
  by (induction "'',''" xs rule: join.induct) simp_all

lemma size_JArr:
  "calculateResponseSize (JArr xs) =
     2 + sum_list (map calculateResponseSize xs) + (length xs - 1)"
  by (simp add: calculateResponseSize_def [abs_def] byteLength_join comp_def)

lemma size_JObj:
  "calculateResponseSize (JObj props) =
     2 + sum_list (map (\<lambda>(k, v). byteLength (quote k) + 1 + calculateResponseSize v) props)
       + (length props - 1)"
  by (simp add: calculateResponseSize_def byteLength_join comp_def case_prod_unfold)

lemma byteLength_quote: "2 \<le> byteLength (quote k)"
  by (simp add: quote_def)

lemma digits_nonempty: "digits n \<noteq> []"
  by (subst digits.simps) simp

lemma stringify_nonempty: "stringify v \<noteq> []"
  by (cases v) (simp_all add: number_to_string_def digits_nonempty quote_def)

lemma size_pos: "1 \<le> calculateResponseSize v"
proof -
  obtain c s where "stringify v = c # s"
    using stringify_nonempty [of v] by (cases "stringify v") auto
  then show ?thesis
    using utf8_bytes_pos [of c] by (simp add: calculateResponseSize_def)
qed

lemma size_JObj_lower: "4 * length props \<le> calculateResponseSize (JObj props)"
proof -
  have "4 * length props \<le>
          sum_list (map (\<lambda>(k, v). byteLength (quote k) + 1 + calculateResponseSize v) props)"
  proof (induction props)
    case Nil
    show ?case by simp
  next
    case (Cons p props)
    obtain k v where p: "p = (k, v)" by (cases p)
    from byteLength_quote [of k] size_pos [of v] Cons p show ?case by simp
  qed
  then show ?thesis by (simp add: size_JObj)
qed

lemma length_set_property: "length ps \<le> length (set_property ps key v)"
  by (induction ps) auto

lemma within_budget_mono: "within_budget t n \<Longrightarrow> m \<le> n \<Longrightarrow> within_budget t m"
proof -
  assume a: "within_budget t n" and b: "m \<le> n"
  from b have "(of_nat m :: rat) \<le> of_nat n" by simp
  with a show ?thesis unfolding within_budget_def by linarith
qed

lemma truncateArray_replicate:
  assumes "within_budget t (cur + m * calculateResponseSize x)"
  shows "truncateArray t (replicate m x @ rest) cur acc =
           truncateArray t rest (cur + m * calculateResponseSize x) (acc @ replicate m x)"
  using assms
proof (induction m arbitrary: cur acc)
  case 0
  show ?case by simp
next
  case (Suc m)
  from Suc.prems have one: "within_budget t (cur + calculateResponseSize x)"
    by (rule within_budget_mono) simp
  from Suc.prems have "within_budget t (cur + calculateResponseSize x + m * calculateResponseSize x)"
    by (simp add: add.assoc)
  from Suc.IH [OF this, of "acc @ [x]"] one show ?case
    by (simp add: within_budget_def Let_def not_less add.assoc replicate_app_Cons_same)
qed

lemma size_one: "calculateResponseSize (JNum 1) = 1"
  by code_simp

lemma size_ten: "calculateResponseSize (JNum 10) = 2"
  by code_simp

lemma digits_56283: "digits 56283 = ''56283''"
  by (simp add: digits.simps decimal_digit_def)

lemma size_marker: "calculateResponseSize (truncation_marker 56283) = 47"
  unfolding truncation_marker_def digits_56283 by code_simp

lemma size_big_array: "calculateResponseSize big_array = 2000000"
  by (simp only: big_array_def size_JArr size_one size_ten sum_list_replicate map_append
        map_replicate sum_list_append list.map sum_list.Cons sum_list.Nil length_append
        length_replicate list.size) simp

lemma big_array_split:
  "replicate 999998 (JNum 1) @ [JNum 10] =
     replicate 943716 (JNum 1) @ (JNum 1 # replicate 56281 (JNum 1) @ [JNum 10])"
proof -
  have "(999998::nat) = 943716 + Suc 56281" by simp
  then have "replicate 999998 (JNum 1) = replicate (943716 + Suc 56281) (JNum 1)"
    by (rule arg_cong)
  also have "\<dots> = replicate 943716 (JNum 1) @ JNum 1 # replicate 56281 (JNum 1)"
    by (simp only: replicate_add replicate_Suc)
  finally show ?thesis by (simp only: append_assoc append_Cons)
qed

lemma truncate_big_array:
  "truncateObject big_array 1048576 = JArr (replicate 943716 (JNum 1) @ [truncation_marker 56283])"
proof -
  have fits: "within_budget 1048576 (2 + 943716 * calculateResponseSize (JNum 1))"
    by (simp add: within_budget_def size_one)
  have len: "length (JNum 1 # replicate 56281 (JNum 1) @ [JNum 10]) = 56283"
    by simp
  have stop: "truncateArray 1048576 (JNum 1 # replicate 56281 (JNum 1) @ [JNum 10])
            (2 + 943716 * calculateResponseSize (JNum 1)) ([] @ replicate 943716 (JNum 1))
          = replicate 943716 (JNum 1) @ [truncation_marker 56283]"
    unfolding truncateArray.simps len size_one Let_def by simp
  have "truncateArray 1048576 (replicate 999998 (JNum 1) @ [JNum 10]) 2 [] =
          truncateArray 1048576 (JNum 1 # replicate 56281 (JNum 1) @ [JNum 10])
            (2 + 943716 * calculateResponseSize (JNum 1)) ([] @ replicate 943716 (JNum 1))"
    unfolding big_array_split by (rule truncateArray_replicate [OF fits])
  with stop show ?thesis
    by (simp only: truncateObject_def big_array_def json.case)
qed

lemma length_spread_JArr: "length (spread (JArr xs)) = length xs"
  by (simp add: spread_def)

lemma size_truncated_big_array:
  "calculateResponseSize (JArr (replicate 943716 (JNum 1) @ [truncation_marker 56283])) = 1887481"
  by (simp only: size_JArr size_one size_marker sum_list_replicate map_append
        map_replicate sum_list_append list.map sum_list.Cons sum_list.Nil length_append
        length_replicate list.size) simp

text \<open>
  Claim C4.  The claim asks that the elements of an array are accumulated while the running
  serialised size stays under nine tenths of the target.  The loop adds the sizes of the
  elements to its running size and never the commas between them, so the prefix it keeps
  can be larger than that.  On the short array and a target of 5 it keeps two elements,
  its running size 4 within the 4.5 allowed, whose serialisation has 5 bytes.  On the array
  of 2000000 bytes and a target of 1048576 it keeps 943716 elements, its running size
  943718, whose serialisation has 1887433 bytes.  In both runs the prefix is followed by
  one marker that states the number of elements left.
\<close>

theorem truncateObject_array_over_budget:
  "truncateObject (JArr short_array) 5 = JArr [JNum 1, JNum 2, truncation_marker 1]
   \<and> within_budget 5 (running_size [JNum 1, JNum 2])
   \<and> calculateResponseSize (JArr [JNum 1, JNum 2]) = 5
   \<and> \<not> within_budget 5 5
   \<and> truncateObject big_array 1048576 =
       JArr (replicate 943716 (JNum 1) @ [truncation_marker 56283])
   \<and> within_budget 1048576 (running_size (replicate 943716 (JNum 1)))
   \<and> calculateResponseSize (JArr (replicate 943716 (JNum 1))) = 1887433
   \<and> \<not> within_budget 1048576 1887433"
proof -
  have short: "truncateObject (JArr short_array) 5 = JArr [JNum 1, JNum 2, truncation_marker 1]
      \<and> within_budget 5 (running_size [JNum 1, JNum 2])
      \<and> calculateResponseSize (JArr [JNum 1, JNum 2]) = 5
      \<and> \<not> within_budget 5 5"
    by code_simp
  have counter: "within_budget 1048576 (running_size (replicate 943716 (JNum 1)))"
    by (simp add: within_budget_def running_size_def size_one sum_list_replicate)
  have kept: "calculateResponseSize (JArr (replicate 943716 (JNum 1))) = 1887433"
    by (simp only: size_JArr size_one sum_list_replicate map_replicate length_replicate) simp
  have over: "\<not> within_budget 1048576 1887433"
    by (simp add: within_budget_def)
  from short truncate_big_array counter kept over show ?thesis
    by simp
qed

text \<open>
  Claim C3.  The claim asks that the data \<^verbatim>\<open>truncateResponse\<close> returns for an oversized
  input fits the budget.  On the array of 2000000 bytes and the budget of 1048576 bytes the
  code reports the truncation and the original size, but the array it keeps has 1887481
  bytes, and the returned data, the array spread into an object, is larger than the budget.
\<close>

theorem truncateResponse_exceeds_budget:
  "calculateResponseSize big_array = 2000000
   \<and> truncated (metadata (truncateResponse big_array 1048576)) = True
   \<and> originalSize (metadata (truncateResponse big_array 1048576)) = Some 2000000
   \<and> size_md (metadata (truncateResponse big_array 1048576)) = 1887481
   \<and> 1048576 < calculateResponseSize (BoundedResponse.data (truncateResponse big_array 1048576))"
proof -
  let ?t = "JArr (replicate 943716 (JNum 1) @ [truncation_marker 56283])"
  let ?m = "JObj [(''truncated'', JBool True),
                  (''originalSize'', JNum 2000000),
                  (''truncatedSize'', JNum 1887481),
                  (''message'', JStr truncation_message)]"
  have over: "\<not> (of_nat (calculateResponseSize big_array) \<le> (1048576 :: rat))"
    by (simp add: size_big_array)
  have res: "truncateResponse big_array 1048576 =
          \<lparr>BoundedResponse.data = JObj (set_property (spread ?t) ''_metadata'' ?m),
             metadata = \<lparr>size_md = 1887481, truncated = True,
                         originalSize = Some 2000000\<rparr>\<rparr>"
    unfolding truncateResponse_def Let_def truncate_big_array size_truncated_big_array
    using over by (simp add: size_big_array)
  have "length (spread ?t) = 943717"
    unfolding length_spread_JArr by simp
  with length_set_property [of "spread ?t" "''_metadata''" ?m]
  have "943717 \<le> length (set_property (spread ?t) ''_metadata'' ?m)"
    by simp
  with size_JObj_lower [of "set_property (spread ?t) ''_metadata'' ?m"]
  have "1048576 < calculateResponseSize (JObj (set_property (spread ?t) ''_metadata'' ?m))"
    by simp
  then show ?thesis
    by (simp add: res size_big_array)
qed

text \<open>
  With a small budget the same happens on an object: the marker and the metadata alone are
  larger than the budget.
\<close>

lemma truncateResponse_small_budget:
  "calculateResponseSize (JObj [(''a'', JStr ''bbbbbbbbbb'')]) = 18
   \<and> calculateResponseSize
        (BoundedResponse.data (truncateResponse (JObj [(''a'', JStr ''bbbbbbbbbb'')]) 10)) = 228"
  by code_simp

end
